theory Spec2Isabelle
  imports Complex_Main
begin

section \<open>The timer server of sun-stop-timer (server.js)\<close>

text \<open>
  The server keeps one timer state, one variable \<open>timerInterval\<close> holding the handle of
  the scheduled \<open>tick\<close>, and reacts to socket commands and to its own timeouts. Every
  handler runs to completion on the event loop, so a handler is a function from the
  server's state to the server's state.

  JavaScript numbers that hold whole values (\<open>timeLeft\<close>, \<open>Date.now()\<close>, their
  differences) are modelled as \<open>int\<close>: they stay far inside the range where a double is
  exact. A finite number received from a client is modelled by its exact value, a
  rational (every finite double is one).
\<close>

subsection \<open>Values received from a client\<close>

datatype js_number = Finite rat | NaN | PosInfinity | NegInfinity

datatype js_value =
    JSUndefined
  | JSNull
  | JSBoolean bool
  | JSNumber js_number
  | JSString string
  | JSObject

fun typeof :: "js_value \<Rightarrow> string" where
  "typeof JSUndefined = ''undefined''"
| "typeof JSNull = ''object''"
| "typeof (JSBoolean b) = ''boolean''"
| "typeof (JSNumber n) = ''number''"
| "typeof (JSString s) = ''string''"
| "typeof JSObject = ''object''"

fun Number_isFinite :: "js_value \<Rightarrow> bool" where
  "Number_isFinite (JSNumber (Finite x)) = True"
| "Number_isFinite v = False"

text \<open>
  \<open>Math.round\<close>: the integer closest to the argument, the larger one when two are
  equally close. A result of \<open>-0\<close> is the integer 0: the server only compares it with 0
  and subtracts from it.
\<close>

definition Math_round :: "rat \<Rightarrow> int" where
  "Math_round x = \<lfloor>x + 1 / 2\<rfloor>"

text \<open>\<open>Math.max(-5999, Math.min(5999, Math.round(seconds)))\<close>\<close>

definition clamped :: "rat \<Rightarrow> int" where
  "clamped seconds = max (- 5999) (min 5999 (Math_round seconds))"

subsection \<open>The state\<close>

datatype status = IDLE | RUNNING | PAUSED | FINISHED

datatype overtime_mode = COUNT_UP | STOP

record timer_state =
  timeLeft :: int
  status :: status
  overtimeMode :: overtime_mode
  lastTick :: int

datatype message = TimerUpdate timer_state | ServerShutdown

text \<open>
  \<open>timeouts\<close> lists the handles of the \<open>setTimeout(tick, 200)\<close> calls that have neither
  fired nor been cleared, \<open>nextTimeout\<close> is the next fresh handle, and \<open>sent\<close> is what
  \<open>io.emit\<close> has broadcast so far, oldest first.
\<close>

record server =
  state :: timer_state
  timerInterval :: "nat option"
  timeouts :: "nat list"
  nextTimeout :: nat
  sent :: "message list"

definition init :: "int \<Rightarrow> server" where
  "init t0 =
     \<lparr>state = \<lparr>timeLeft = 0, status = IDLE, overtimeMode = COUNT_UP, lastTick = t0\<rparr>,
      timerInterval = None, timeouts = [], nextTimeout = 0, sent = []\<rparr>"

subsection \<open>Scheduling and broadcasting\<close>

definition clearTimer :: "server \<Rightarrow> server" where
  "clearTimer s =
     s\<lparr>timeouts := (case timerInterval s of
                       None \<Rightarrow> timeouts s
                     | Some h \<Rightarrow> removeAll h (timeouts s)),
       timerInterval := None\<rparr>"

text \<open>\<open>timerInterval = setTimeout(tick, 200)\<close>\<close>

definition setTimeout_tick :: "server \<Rightarrow> server" where
  "setTimeout_tick s =
     s\<lparr>timeouts := timeouts s @ [nextTimeout s],
       timerInterval := Some (nextTimeout s),
       nextTimeout := Suc (nextTimeout s)\<rparr>"

text \<open>\<open>io.emit('timer-update', state)\<close>\<close>

definition emit_timer_update :: "server \<Rightarrow> server" where
  "emit_timer_update s = s\<lparr>sent := sent s @ [TimerUpdate (state s)]\<rparr>"

subsection \<open>The tick\<close>

definition tick :: "int \<Rightarrow> server \<Rightarrow> server" where
  "tick now s =
     (if status (state s) \<noteq> RUNNING then s
      else
        let elapsed = (now - lastTick (state s)) div 1000;
            s1 =
              (if elapsed \<ge> 1 then
                 let s2 = s\<lparr>state := (state s)\<lparr>timeLeft := timeLeft (state s) - elapsed,
                                                 lastTick := now\<rparr>\<rparr>;
                     s3 =
                       (if timeLeft (state s2) \<le> 0 \<and> overtimeMode (state s2) = STOP
                        then clearTimer
                               (s2\<lparr>state := (state s2)\<lparr>status := FINISHED, timeLeft := 0\<rparr>\<rparr>)
                        else s2)
                 in emit_timer_update s3
               else s)
        in if status (state s1) = RUNNING then setTimeout_tick s1 else s1)"

subsection \<open>The socket handlers\<close>

definition set_time :: "js_value \<Rightarrow> server \<Rightarrow> server" where
  "set_time seconds s =
     (if typeof seconds \<noteq> ''number'' \<or> \<not> Number_isFinite seconds then s
      else case seconds of
        JSNumber (Finite x) \<Rightarrow>
          emit_timer_update
            (clearTimer (s\<lparr>state := (state s)\<lparr>timeLeft := clamped x, status := IDLE\<rparr>\<rparr>))
      | _ \<Rightarrow> s)"

definition start :: "int \<Rightarrow> server \<Rightarrow> server" where
  "start now s =
     (if status (state s) \<noteq> RUNNING
         \<and> (timeLeft (state s) \<noteq> 0 \<or> status (state s) = PAUSED)
      then
        let s1 = s\<lparr>state := (state s)\<lparr>status := RUNNING, lastTick := now\<rparr>\<rparr>;
            s2 = (if timerInterval s1 = None then setTimeout_tick s1 else s1)
        in emit_timer_update s2
      else s)"

definition pause :: "server \<Rightarrow> server" where
  "pause s = emit_timer_update (clearTimer (s\<lparr>state := (state s)\<lparr>status := PAUSED\<rparr>\<rparr>))"

definition stop :: "server \<Rightarrow> server" where
  "stop s =
     emit_timer_update (clearTimer (s\<lparr>state := (state s)\<lparr>status := IDLE, timeLeft := 0\<rparr>\<rparr>))"

definition set_mode :: "js_value \<Rightarrow> server \<Rightarrow> server" where
  "set_mode mode s =
     (if mode \<noteq> JSString ''COUNT_UP'' \<and> mode \<noteq> JSString ''STOP'' then s
      else
        emit_timer_update
          (s\<lparr>state := (state s)\<lparr>overtimeMode :=
                (if mode = JSString ''STOP'' then STOP else COUNT_UP)\<rparr>\<rparr>))"

text \<open>
  The shutdown handler clears the timer and announces the shutdown; the process exits
  half a second later, and handles events until then.
\<close>

definition shutdown :: "server \<Rightarrow> server" where
  "shutdown s = (let s1 = clearTimer s in s1\<lparr>sent := sent s1 @ [ServerShutdown]\<rparr>)"

definition set_and_start :: "js_value \<Rightarrow> int \<Rightarrow> server \<Rightarrow> server" where
  "set_and_start seconds now s =
     (if typeof seconds \<noteq> ''number'' \<or> \<not> Number_isFinite seconds then s
      else case seconds of
        JSNumber (Finite x) \<Rightarrow>
          emit_timer_update
            (setTimeout_tick
               (clearTimer
                  (s\<lparr>state := (state s)\<lparr>timeLeft := clamped x, status := RUNNING,
                                          lastTick := now\<rparr>\<rparr>)))
      | _ \<Rightarrow> s)"

subsection \<open>The event loop\<close>

text \<open>
  An event is a command arriving on a socket or a scheduled timeout firing. A timeout
  fires only while it is pending, and firing removes it from the pending ones before
  \<open>tick\<close> runs. \<open>step now e\<close> handles the event \<open>e\<close> with \<open>Date.now()\<close> reading
  \<open>now\<close>.
\<close>

datatype event =
    SetTime js_value
  | Start
  | Pause
  | Stop
  | SetMode js_value
  | SetAndStart js_value
  | Shutdown
  | TimeoutFires nat

fun step :: "int \<Rightarrow> event \<Rightarrow> server \<Rightarrow> server" where
  "step now (SetTime v) s = set_time v s"
| "step now Start s = start now s"
| "step now Pause s = pause s"
| "step now Stop s = stop s"
| "step now (SetMode v) s = set_mode v s"
| "step now (SetAndStart v) s = set_and_start v now s"
| "step now Shutdown s = shutdown s"
| "step now (TimeoutFires h) s =
     (if h \<in> set (timeouts s) then tick now (s\<lparr>timeouts := removeAll h (timeouts s)\<rparr>)
      else s)"

fun run :: "(int \<times> event) list \<Rightarrow> server \<Rightarrow> server" where
  "run [] s = s"
| "run ((now, e) # es) s = run es (step now e s)"

subsection \<open>What the handlers maintain\<close>

text \<open>
  At most the handle held in \<open>timerInterval\<close> is pending, no handle is held outside
  \<open>RUNNING\<close>, and \<open>FINISHED\<close> is only entered with \<open>timeLeft = 0\<close>.
\<close>

definition sched_inv :: "server \<Rightarrow> bool" where
  "sched_inv s \<longleftrightarrow>
     timeouts s = (case timerInterval s of None \<Rightarrow> [] | Some h \<Rightarrow> [h])
     \<and> (status (state s) \<noteq> RUNNING \<longrightarrow> timerInterval s = None)
     \<and> (status (state s) = FINISHED \<longrightarrow> timeLeft (state s) = 0)"

text \<open>As long as no shutdown was requested, a handle is held while \<open>RUNNING\<close>.\<close>

definition live_inv :: "server \<Rightarrow> bool" where
  "live_inv s \<longleftrightarrow> sched_inv s \<and> (status (state s) = RUNNING \<longrightarrow> timerInterval s \<noteq> None)"

section \<open>Properties\<close>

subsection \<open>Auxiliary facts\<close>

lemmas sched_defs = clearTimer_def setTimeout_tick_def emit_timer_update_def

lemma Math_round_bounds:
  "of_int (Math_round x) - 1 / 2 \<le> x \<and> x < of_int (Math_round x) + 1 / 2"
  unfolding Math_round_def by linarith

lemma Math_round_nearest: "\<bar>x - of_int (Math_round x)\<bar> \<le> \<bar>x - of_int k\<bar>"
proof -
  have b: "of_int (Math_round x) - 1 / 2 \<le> x \<and> x < of_int (Math_round x) + 1 / 2"
    by (rule Math_round_bounds)
  show ?thesis
  proof (cases "k = Math_round x")
    case True
    then show ?thesis by simp
  next
    case False
    then have "k \<le> Math_round x - 1 \<or> Math_round x + 1 \<le> k" by linarith
    then have "(of_int k :: rat) \<le> of_int (Math_round x) - 1
        \<or> (of_int (Math_round x) :: rat) + 1 \<le> of_int k"
      by (metis of_int_le_iff of_int_diff of_int_add of_int_1)
    with b show ?thesis by linarith
  qed
qed

lemma Math_round_of_int: "Math_round (of_int n) = n"
  unfolding Math_round_def by linarith

lemma Math_round_numeral: "Math_round (numeral n) = numeral n"
  using Math_round_of_int [of "numeral n"] by simp

lemma Math_round_neg_numeral: "Math_round (- numeral n) = - numeral n"
  using Math_round_of_int [of "- numeral n"] by simp

lemma Math_round_0: "Math_round 0 = 0"
  using Math_round_of_int [of 0] by simp

lemma Math_round_1: "Math_round 1 = 1"
  using Math_round_of_int [of 1] by simp

lemmas Math_round_whole =
  Math_round_numeral Math_round_neg_numeral Math_round_0 Math_round_1

lemma Math_round_half: "Math_round (of_int k + 1 / 2) = k + 1"
  unfolding Math_round_def by linarith

lemma elapsed_floor: "\<lfloor>(of_int a :: rat) / 1000\<rfloor> = a div 1000"
  using floor_divide_of_int_eq [of a 1000, where ?'a = rat] by simp

lemma removeAll_only: "set xs \<subseteq> {a} \<Longrightarrow> removeAll a xs = []"
  by (induction xs) auto

lemmas handler_defs =
  set_time_def start_def pause_def stop_def set_mode_def shutdown_def set_and_start_def

lemma sched_inv_init: "sched_inv (init t0)"
  by (simp add: sched_inv_def init_def)

lemma live_inv_init: "live_inv (init t0)"
  by (simp add: live_inv_def sched_inv_def init_def)

lemma sched_inv_tick:
  assumes "sched_inv s" and "h \<in> set (timeouts s)"
  shows "sched_inv (tick now (s\<lparr>timeouts := removeAll h (timeouts s)\<rparr>))"
proof -
  from assms have "timerInterval s = Some h" and "timeouts s = [h]"
    by (auto simp add: sched_inv_def split: option.splits)
  with assms(1) show ?thesis
    by (simp add: sched_inv_def tick_def sched_defs Let_def)
qed

lemma sched_inv_step: "sched_inv s \<Longrightarrow> sched_inv (step now e s)"
proof (cases e)
  case (SetTime v)
  assume "sched_inv s"
  then show ?thesis unfolding SetTime
    by (auto simp add: sched_inv_def set_time_def sched_defs
        split: option.splits js_value.splits js_number.splits)
next
  case Start
  assume "sched_inv s"
  then show ?thesis unfolding Start
    by (auto simp add: sched_inv_def start_def sched_defs Let_def split: option.splits)
next
  case Pause
  assume "sched_inv s"
  then show ?thesis unfolding Pause
    by (auto simp add: sched_inv_def pause_def sched_defs split: option.splits)
next
  case Stop
  assume "sched_inv s"
  then show ?thesis unfolding Stop
    by (auto simp add: sched_inv_def stop_def sched_defs split: option.splits)
next
  case (SetMode v)
  assume "sched_inv s"
  then show ?thesis unfolding SetMode
    by (auto simp add: sched_inv_def set_mode_def sched_defs split: option.splits)
next
  case (SetAndStart v)
  assume "sched_inv s"
  then show ?thesis unfolding SetAndStart
    by (auto simp add: sched_inv_def set_and_start_def sched_defs
        split: option.splits js_value.splits js_number.splits)
next
  case Shutdown
  assume "sched_inv s"
  then show ?thesis unfolding Shutdown
    by (auto simp add: sched_inv_def shutdown_def sched_defs Let_def split: option.splits)
next
  case (TimeoutFires h)
  assume "sched_inv s"
  then show ?thesis unfolding TimeoutFires
    by (simp add: sched_inv_tick)
qed

lemma sched_inv_run: "sched_inv s \<Longrightarrow> sched_inv (run evs s)"
  by (induction evs arbitrary: s) (auto simp add: sched_inv_step)

lemma live_inv_tick:
  assumes "live_inv s" and "h \<in> set (timeouts s)"
  shows "live_inv (tick now (s\<lparr>timeouts := removeAll h (timeouts s)\<rparr>))"
proof -
  from assms have "timerInterval s = Some h" and "timeouts s = [h]"
    by (auto simp add: live_inv_def sched_inv_def split: option.splits)
  with assms(1) show ?thesis
    by (simp add: live_inv_def sched_inv_def tick_def sched_defs Let_def)
qed

lemma live_inv_step: "live_inv s \<Longrightarrow> e \<noteq> Shutdown \<Longrightarrow> live_inv (step now e s)"
proof (cases e)
  case (SetTime v)
  assume "live_inv s"
  then show ?thesis unfolding SetTime
    by (auto simp add: live_inv_def sched_inv_def set_time_def sched_defs
        split: option.splits js_value.splits js_number.splits)
next
  case Start
  assume "live_inv s"
  then show ?thesis unfolding Start
    by (auto simp add: live_inv_def sched_inv_def start_def sched_defs Let_def
        split: option.splits)
next
  case Pause
  assume "live_inv s"
  then show ?thesis unfolding Pause
    by (auto simp add: live_inv_def sched_inv_def pause_def sched_defs split: option.splits)
next
  case Stop
  assume "live_inv s"
  then show ?thesis unfolding Stop
    by (auto simp add: live_inv_def sched_inv_def stop_def sched_defs split: option.splits)
next
  case (SetMode v)
  assume "live_inv s"
  then show ?thesis unfolding SetMode
    by (auto simp add: live_inv_def sched_inv_def set_mode_def sched_defs
        split: option.splits)
next
  case (SetAndStart v)
  assume "live_inv s"
  then show ?thesis unfolding SetAndStart
    by (auto simp add: live_inv_def sched_inv_def set_and_start_def sched_defs
        split: option.splits js_value.splits js_number.splits)
next
  case Shutdown
  assume "e \<noteq> Shutdown"
  with Shutdown show ?thesis by simp
next
  case (TimeoutFires h)
  assume "live_inv s"
  then show ?thesis unfolding TimeoutFires
    by (simp add: live_inv_tick)
qed

lemma live_inv_run:
  "live_inv s \<Longrightarrow> Shutdown \<notin> snd ` set evs \<Longrightarrow> live_inv (run evs s)"
  by (induction evs arbitrary: s) (auto simp add: live_inv_step)

lemma sched_inv_pending: "sched_inv s \<Longrightarrow> set (timeouts s) \<subseteq> set_option (timerInterval s)"
  by (simp add: sched_inv_def split: option.splits)

lemma reachable_pending:
  "set (timeouts (run evs (init t0))) \<subseteq> set_option (timerInterval (run evs (init t0)))"
  by (simp add: sched_inv_pending sched_inv_run sched_inv_init)

lemma set_time_clears:
  "set (timeouts s) \<subseteq> set_option (timerInterval s) \<Longrightarrow>
    timeouts (set_time (JSNumber (Finite x)) s) = []"
  by (cases "timerInterval s") (auto simp add: set_time_def sched_defs removeAll_only)

lemma set_and_start_reschedules:
  "set (timeouts s) \<subseteq> set_option (timerInterval s) \<Longrightarrow>
    timeouts (set_and_start (JSNumber (Finite x)) now s) = [nextTimeout s]"
  by (cases "timerInterval s") (auto simp add: set_and_start_def sched_defs removeAll_only)

subsection \<open>set-time\<close>

text \<open>
  C3. For every finite number \<open>x\<close> and every starting state, \<open>set-time\<close> stores
  \<open>x\<close> rounded to a nearest integer and clamped to \<open>[-5999, 5999]\<close> (for a whole
  \<open>x\<close>, \<open>x\<close> itself clamped), sets the status to \<open>IDLE\<close> and leaves the rest of the
  timer state alone; the handle held in \<open>timerInterval\<close> is cleared and no longer
  pending, so that no tick remains scheduled when the pending ones were at most that
  handle, as they are after any sequence of events from the initial state; nothing new
  is scheduled, and one snapshot of the new state is broadcast.
\<close>

theorem set_time_finite:
  "state (set_time (JSNumber (Finite x)) s) =
     (state s)\<lparr>timeLeft := max (- 5999) (min 5999 (Math_round x)), status := IDLE\<rparr>
   \<and> (\<forall>k. \<bar>x - of_int (Math_round x)\<bar> \<le> \<bar>x - of_int k\<bar>)
   \<and> (\<forall>n. x = of_int n \<longrightarrow>
          timeLeft (state (set_time (JSNumber (Finite x)) s)) = max (- 5999) (min 5999 n))
   \<and> timerInterval (set_time (JSNumber (Finite x)) s) = None
   \<and> (\<forall>h. timerInterval s = Some h \<longrightarrow>
          h \<notin> set (timeouts (set_time (JSNumber (Finite x)) s)))
   \<and> (set (timeouts s) \<subseteq> set_option (timerInterval s) \<longrightarrow>
          timeouts (set_time (JSNumber (Finite x)) s) = [])
   \<and> timeouts (set_time (JSNumber (Finite x)) (run evs (init t0))) = []
   \<and> nextTimeout (set_time (JSNumber (Finite x)) s) = nextTimeout s
   \<and> sent (set_time (JSNumber (Finite x)) s) =
       sent s @ [TimerUpdate (state (set_time (JSNumber (Finite x)) s))]"
proof -
  let ?s = "set_time (JSNumber (Finite x)) s"
  have 1: "state ?s =
     (state s)\<lparr>timeLeft := max (- 5999) (min 5999 (Math_round x)), status := IDLE\<rparr>"
    by (simp add: set_time_def sched_defs clamped_def)
  have 2: "\<forall>k. \<bar>x - of_int (Math_round x)\<bar> \<le> \<bar>x - of_int k\<bar>"
    by (simp add: Math_round_nearest)
  have 3: "\<forall>n. x = of_int n \<longrightarrow> timeLeft (state ?s) = max (- 5999) (min 5999 n)"
    using 1 by (auto simp add: Math_round_of_int)
  have 4: "timerInterval ?s = None"
    by (simp add: set_time_def sched_defs)
  have 5: "\<forall>h. timerInterval s = Some h \<longrightarrow> h \<notin> set (timeouts ?s)"
    by (simp add: set_time_def sched_defs)
  have 6: "set (timeouts s) \<subseteq> set_option (timerInterval s) \<longrightarrow> timeouts ?s = []"
    by (simp add: set_time_clears)
  have 9: "timeouts (set_time (JSNumber (Finite x)) (run evs (init t0))) = []"
    by (simp add: set_time_clears reachable_pending)
  have 7: "nextTimeout ?s = nextTimeout s"
    by (simp add: set_time_def sched_defs)
  have 8: "sent ?s = sent s @ [TimerUpdate (state ?s)]"
    by (simp add: set_time_def sched_defs)
  from 1 2 3 4 5 6 7 8 9 show ?thesis by blast
qed

theorem set_time_finite_witness:
  "timerInterval (run [(0, SetAndStart (JSNumber (Finite 90)))] (init 0)) = Some 0
   \<and> set (timeouts (run [(0, SetAndStart (JSNumber (Finite 90)))] (init 0)))
       \<subseteq> set_option (timerInterval (run [(0, SetAndStart (JSNumber (Finite 90)))] (init 0)))
   \<and> (125 :: rat) = of_int 125
   \<and> state (set_time (JSNumber (Finite 125))
        (run [(0, SetAndStart (JSNumber (Finite 90)))] (init 0))) =
       \<lparr>timeLeft = 125, status = IDLE, overtimeMode = COUNT_UP, lastTick = 0\<rparr>
   \<and> timeouts (set_time (JSNumber (Finite 125))
        (run [(0, SetAndStart (JSNumber (Finite 90)))] (init 0))) = []"
proof -
  let ?s0 = "run [(0, SetAndStart (JSNumber (Finite 90)))] (init 0)"
  have a: "timerInterval ?s0 = Some 0" and b: "timeouts ?s0 = [0]"
    by (simp_all add: set_and_start_def sched_defs init_def clamped_def Math_round_whole)
  have d: "set (timeouts ?s0) \<subseteq> set_option (timerInterval ?s0)"
    unfolding a b by simp
  note t = set_time_finite [of 125 ?s0]
  have e: "state (set_time (JSNumber (Finite 125)) ?s0) =
      \<lparr>timeLeft = 125, status = IDLE, overtimeMode = COUNT_UP, lastTick = 0\<rparr>"
    using t [THEN conjunct1]
    by (simp add: set_and_start_def sched_defs init_def clamped_def Math_round_whole)
  have f: "timeouts (set_time (JSNumber (Finite 125)) ?s0) = []"
    using t d by blast
  from a d e f show ?thesis by simp
qed

text \<open>
  C10. The rounding of \<open>set-time\<close> and \<open>set-and-start\<close> resolves a tie upwards: for
  every input exactly half way between the integers \<open>k\<close> and \<open>k + 1\<close>, the stored
  \<open>timeLeft\<close> is \<open>k + 1\<close> clamped to \<open>[-5999, 5999]\<close>, for negative inputs as well
  (2.5 gives 3 and -2.5 gives -2).
\<close>

theorem round_half_up:
  "timeLeft (state (set_time (JSNumber (Finite (of_int k + 1 / 2))) s)) =
     max (- 5999) (min 5999 (k + 1))
   \<and> timeLeft (state (set_and_start (JSNumber (Finite (of_int k + 1 / 2))) now s)) =
     max (- 5999) (min 5999 (k + 1))"
  by (simp add: set_time_def set_and_start_def sched_defs clamped_def Math_round_half)

theorem round_half_up_witness:
  "timeLeft (state (set_time (JSNumber (Finite (5 / 2))) (init 0))) = 3
   \<and> timeLeft (state (set_time (JSNumber (Finite (- 5 / 2))) (init 0))) = - 2
   \<and> timeLeft (state (set_and_start (JSNumber (Finite (5 / 2))) 0 (init 0))) = 3
   \<and> timeLeft (state (set_and_start (JSNumber (Finite (- 5 / 2))) 0 (init 0))) = - 2"
proof -
  have p: "(of_int 2 + 1 / 2 :: rat) = 5 / 2" and n: "(of_int (- 3) + 1 / 2 :: rat) = - 5 / 2"
    by simp_all
  have "timeLeft (state (set_time (JSNumber (Finite (5 / 2))) (init 0))) = 3"
    using round_half_up [of 2 "init 0" 0] unfolding p by simp
  moreover have "timeLeft (state (set_time (JSNumber (Finite (- 5 / 2))) (init 0))) = - 2"
    using round_half_up [of "- 3" "init 0" 0] unfolding n by simp
  moreover have "timeLeft (state (set_and_start (JSNumber (Finite (5 / 2))) 0 (init 0))) = 3"
    using round_half_up [of 2 "init 0" 0] unfolding p by simp
  moreover have
    "timeLeft (state (set_and_start (JSNumber (Finite (- 5 / 2))) 0 (init 0))) = - 2"
    using round_half_up [of "- 3" "init 0" 0] unfolding n by simp
  ultimately show ?thesis by blast
qed

subsection \<open>Malformed payloads\<close>

text \<open>
  C9. A \<open>set-time\<close> or \<open>set-and-start\<close> command whose payload is not a finite number
  (another type, \<open>NaN\<close>, an infinity) and a \<open>set-mode\<close> command whose payload is not one
  of the strings \<open>COUNT_UP\<close> and \<open>STOP\<close> are dropped: the server is left exactly as it
  was, timer state, scheduling and everything sent so far, so nothing is broadcast and
  nothing is reported to the sender. A finite number out of range is not dropped: it is
  stored clamped to 5999 or -5999 and a snapshot is broadcast.
\<close>

theorem malformed_payload_dropped:
  "((\<forall>x. v \<noteq> JSNumber (Finite x)) \<longrightarrow> set_time v s = s \<and> set_and_start v now s = s)
   \<and> (m \<noteq> JSString ''COUNT_UP'' \<and> m \<noteq> JSString ''STOP'' \<longrightarrow> set_mode m s = s)
   \<and> (5999 < Math_round x \<longrightarrow>
        timeLeft (state (set_time (JSNumber (Finite x)) s)) = 5999
        \<and> timeLeft (state (set_and_start (JSNumber (Finite x)) now s)) = 5999)
   \<and> (Math_round x < - 5999 \<longrightarrow>
        timeLeft (state (set_time (JSNumber (Finite x)) s)) = - 5999
        \<and> timeLeft (state (set_and_start (JSNumber (Finite x)) now s)) = - 5999)
   \<and> sent (set_time (JSNumber (Finite x)) s) \<noteq> sent s
   \<and> sent (set_and_start (JSNumber (Finite x)) now s) \<noteq> sent s"
proof -
  have 1: "(\<forall>x. v \<noteq> JSNumber (Finite x)) \<longrightarrow> set_time v s = s \<and> set_and_start v now s = s"
  proof (cases v)
    case (JSNumber n)
    then show ?thesis
      by (cases n) (simp_all add: set_time_def set_and_start_def)
  qed (simp_all add: set_time_def set_and_start_def)
  have 2: "m \<noteq> JSString ''COUNT_UP'' \<and> m \<noteq> JSString ''STOP'' \<longrightarrow> set_mode m s = s"
    by (simp add: set_mode_def)
  have 3: "5999 < Math_round x \<longrightarrow>
        timeLeft (state (set_time (JSNumber (Finite x)) s)) = 5999
        \<and> timeLeft (state (set_and_start (JSNumber (Finite x)) now s)) = 5999"
    by (simp add: set_time_def set_and_start_def sched_defs clamped_def)
  have 4: "Math_round x < - 5999 \<longrightarrow>
        timeLeft (state (set_time (JSNumber (Finite x)) s)) = - 5999
        \<and> timeLeft (state (set_and_start (JSNumber (Finite x)) now s)) = - 5999"
    by (simp add: set_time_def set_and_start_def sched_defs clamped_def)
  have 5: "sent (set_time (JSNumber (Finite x)) s) \<noteq> sent s"
    by (simp add: set_time_def sched_defs)
  have 6: "sent (set_and_start (JSNumber (Finite x)) now s) \<noteq> sent s"
    by (simp add: set_and_start_def sched_defs)
  from 1 2 3 4 5 6 show ?thesis by blast
qed

theorem malformed_payload_dropped_witness:
  "set_time (JSString ''90'') (init 0) = init 0
   \<and> set_and_start (JSNumber NaN) 5 (init 0) = init 0
   \<and> set_mode (JSString ''count_up'') (init 0) = init 0
   \<and> timeLeft (state (set_time (JSNumber (Finite 6000)) (init 0))) = 5999
   \<and> timeLeft (state (set_and_start (JSNumber (Finite (- 7000))) 5 (init 0))) = - 5999"
proof -
  have a: "\<forall>x. JSString ''90'' \<noteq> JSNumber (Finite x)"
    and b: "\<forall>x. JSNumber NaN \<noteq> JSNumber (Finite x)"
    and c: "JSString ''count_up'' \<noteq> JSString ''COUNT_UP''
            \<and> JSString ''count_up'' \<noteq> JSString ''STOP''"
    and d: "5999 < Math_round 6000" and e: "Math_round (- 7000) < - 5999"
    by (simp_all add: Math_round_whole)
  have "set_time (JSString ''90'') (init 0) = init 0"
    using malformed_payload_dropped [of "JSString ''90''" "init 0" 5] a by blast
  moreover have "set_and_start (JSNumber NaN) 5 (init 0) = init 0"
    using malformed_payload_dropped [of "JSNumber NaN" "init 0" 5] b by blast
  moreover have "set_mode (JSString ''count_up'') (init 0) = init 0"
    using malformed_payload_dropped [of _ _ _ "JSString ''count_up''"] c by blast
  moreover have "timeLeft (state (set_time (JSNumber (Finite 6000)) (init 0))) = 5999"
    using malformed_payload_dropped [of _ "init 0" _ _ 6000] d by blast
  moreover have
    "timeLeft (state (set_and_start (JSNumber (Finite (- 7000))) 5 (init 0))) = - 5999"
    using malformed_payload_dropped [of _ "init 0" 5 _ "- 7000"] e by blast
  ultimately show ?thesis by blast
qed

subsection \<open>set-and-start\<close>

text \<open>
  C5. For every finite number \<open>x\<close> and every starting state, \<open>set-and-start\<close> is one
  transition to the state with \<open>timeLeft\<close> the rounded and clamped \<open>x\<close>, status
  \<open>RUNNING\<close> and \<open>lastTick = now\<close>; the handle held before is cleared and a fresh
  tick is scheduled and held (the only pending one when the pending ones were at most
  the handle held before, as they are after any sequence of events from the initial
  state); exactly one snapshot is broadcast, that of the final state,
  so no snapshot with status \<open>IDLE\<close> is seen in between. In particular
  \<open>set-and-start(90)\<close> gives \<open>RUNNING\<close> with \<open>timeLeft = 90\<close>.
\<close>

theorem set_and_start_finite:
  "state (set_and_start (JSNumber (Finite x)) now s) =
     \<lparr>timeLeft = max (- 5999) (min 5999 (Math_round x)), status = RUNNING,
      overtimeMode = overtimeMode (state s), lastTick = now\<rparr>
   \<and> (\<forall>k. \<bar>x - of_int (Math_round x)\<bar> \<le> \<bar>x - of_int k\<bar>)
   \<and> timerInterval (set_and_start (JSNumber (Finite x)) now s) = Some (nextTimeout s)
   \<and> timeouts (set_and_start (JSNumber (Finite x)) now s) =
       (case timerInterval s of None \<Rightarrow> timeouts s | Some h \<Rightarrow> removeAll h (timeouts s))
         @ [nextTimeout s]
   \<and> (set (timeouts s) \<subseteq> set_option (timerInterval s) \<longrightarrow>
          timeouts (set_and_start (JSNumber (Finite x)) now s) = [nextTimeout s])
   \<and> timeouts (set_and_start (JSNumber (Finite x)) now (run evs (init t0))) =
       [nextTimeout (run evs (init t0))]
   \<and> sent (set_and_start (JSNumber (Finite x)) now s) =
       sent s @ [TimerUpdate (state (set_and_start (JSNumber (Finite x)) now s))]
   \<and> state (set_and_start (JSNumber (Finite 90)) now s) =
       \<lparr>timeLeft = 90, status = RUNNING, overtimeMode = overtimeMode (state s),
        lastTick = now\<rparr>"
proof -
  let ?s = "set_and_start (JSNumber (Finite x)) now s"
  have 1: "state ?s =
     \<lparr>timeLeft = max (- 5999) (min 5999 (Math_round x)), status = RUNNING,
      overtimeMode = overtimeMode (state s), lastTick = now\<rparr>"
    by (simp add: set_and_start_def sched_defs clamped_def)
  have 2: "\<forall>k. \<bar>x - of_int (Math_round x)\<bar> \<le> \<bar>x - of_int k\<bar>"
    by (simp add: Math_round_nearest)
  have 3: "timerInterval ?s = Some (nextTimeout s)"
    by (simp add: set_and_start_def sched_defs)
  have 4: "timeouts ?s =
       (case timerInterval s of None \<Rightarrow> timeouts s | Some h \<Rightarrow> removeAll h (timeouts s))
         @ [nextTimeout s]"
    by (simp add: set_and_start_def sched_defs split: option.splits)
  have 5: "set (timeouts s) \<subseteq> set_option (timerInterval s) \<longrightarrow>
          timeouts ?s = [nextTimeout s]"
    by (simp add: set_and_start_reschedules)
  have 9: "timeouts (set_and_start (JSNumber (Finite x)) now (run evs (init t0))) =
       [nextTimeout (run evs (init t0))]"
    by (simp add: set_and_start_reschedules reachable_pending)
  have 6: "sent ?s = sent s @ [TimerUpdate (state ?s)]"
    by (simp add: set_and_start_def sched_defs)
  have 7: "state (set_and_start (JSNumber (Finite 90)) now s) =
       \<lparr>timeLeft = 90, status = RUNNING, overtimeMode = overtimeMode (state s),
        lastTick = now\<rparr>"
    by (simp add: set_and_start_def sched_defs clamped_def Math_round_whole)
  from 1 2 3 4 5 6 7 9 show ?thesis by blast
qed

theorem set_and_start_finite_witness:
  "set (timeouts (start 10 (set_time (JSNumber (Finite 30)) (init 0))))
     \<subseteq> set_option (timerInterval (start 10 (set_time (JSNumber (Finite 30)) (init 0))))
   \<and> state (set_and_start (JSNumber (Finite (181 / 2))) 20
        (start 10 (set_time (JSNumber (Finite 30)) (init 0)))) =
       \<lparr>timeLeft = 91, status = RUNNING, overtimeMode = COUNT_UP, lastTick = 20\<rparr>
   \<and> timeouts (set_and_start (JSNumber (Finite (181 / 2))) 20
        (start 10 (set_time (JSNumber (Finite 30)) (init 0)))) = [1]"
proof -
  let ?s0 = "start 10 (set_time (JSNumber (Finite 30)) (init 0))"
  have r: "Math_round (181 / 2) = 91"
    unfolding Math_round_def by linarith
  have a: "set (timeouts ?s0) \<subseteq> set_option (timerInterval ?s0)"
    by (simp add: start_def set_time_def sched_defs init_def clamped_def Math_round_whole)
  have n: "nextTimeout ?s0 = 1" and m: "overtimeMode (state ?s0) = COUNT_UP"
    by (simp_all add: start_def set_time_def sched_defs init_def clamped_def Math_round_whole)
  note t = set_and_start_finite [of "181 / 2" 20 ?s0]
  have b: "state (set_and_start (JSNumber (Finite (181 / 2))) 20 ?s0) =
       \<lparr>timeLeft = 91, status = RUNNING, overtimeMode = COUNT_UP, lastTick = 20\<rparr>"
    using t [THEN conjunct1] unfolding r m by simp
  have c: "timeouts (set_and_start (JSNumber (Finite (181 / 2))) 20 ?s0) = [1]"
    using t a unfolding n by blast
  from a b c show ?thesis by blast
qed

subsection \<open>tick\<close>

text \<open>
  C1. In a state with status \<open>RUNNING\<close>, \<open>tick\<close> takes \<open>elapsed\<close> to be the whole
  seconds between \<open>lastTick\<close> and \<open>now\<close>, rounded down. With \<open>elapsed < 1\<close> the
  timer state is unchanged and nothing is broadcast. With \<open>elapsed \<ge> 1\<close> it subtracts
  \<open>elapsed\<close> from \<open>timeLeft\<close> and sets \<open>lastTick = now\<close>; when the new \<open>timeLeft\<close>
  is at most 0 and the mode is \<open>STOP\<close> the status becomes \<open>FINISHED\<close>, \<open>timeLeft\<close>
  becomes 0, the held handle is cleared and no tick is scheduled again; one snapshot of
  the new state is broadcast. In mode \<open>COUNT_UP\<close> the status stays \<open>RUNNING\<close> and
  \<open>timeLeft\<close> goes on decreasing below zero. While the status stays \<open>RUNNING\<close> the
  next tick is scheduled.
\<close>

theorem tick_running:
  assumes "status (state s) = RUNNING"
  shows "let elapsed = \<lfloor>(of_int (now - lastTick (state s)) :: rat) / 1000\<rfloor> in
    (elapsed < 1 \<longrightarrow>
       state (tick now s) = state s \<and> sent (tick now s) = sent s)
    \<and> (1 \<le> elapsed \<and> \<not> (timeLeft (state s) - elapsed \<le> 0 \<and> overtimeMode (state s) = STOP) \<longrightarrow>
       state (tick now s) =
         (state s)\<lparr>timeLeft := timeLeft (state s) - elapsed, lastTick := now\<rparr>
       \<and> sent (tick now s) = sent s @ [TimerUpdate (state (tick now s))])
    \<and> (1 \<le> elapsed \<and> timeLeft (state s) - elapsed \<le> 0 \<and> overtimeMode (state s) = STOP \<longrightarrow>
       state (tick now s) =
         (state s)\<lparr>timeLeft := 0, status := FINISHED, lastTick := now\<rparr>
       \<and> timerInterval (tick now s) = None
       \<and> timeouts (tick now s) =
           (case timerInterval s of None \<Rightarrow> timeouts s | Some h \<Rightarrow> removeAll h (timeouts s))
       \<and> nextTimeout (tick now s) = nextTimeout s
       \<and> sent (tick now s) = sent s @ [TimerUpdate (state (tick now s))])
    \<and> (overtimeMode (state s) = COUNT_UP \<longrightarrow>
       status (state (tick now s)) = RUNNING
       \<and> timeLeft (state (tick now s)) =
           (if 1 \<le> elapsed then timeLeft (state s) - elapsed else timeLeft (state s)))
    \<and> (status (state (tick now s)) = RUNNING \<longrightarrow>
       timerInterval (tick now s) = Some (nextTimeout s)
       \<and> timeouts (tick now s) = timeouts s @ [nextTimeout s])"
  using assms unfolding elapsed_floor
  by (simp add: tick_def sched_defs Let_def split: option.splits)

theorem tick_running_witness:
  "state (tick 3000 (set_and_start (JSNumber (Finite 1)) 0 (init 0))) =
     \<lparr>timeLeft = - 2, status = RUNNING, overtimeMode = COUNT_UP, lastTick = 3000\<rparr>
   \<and> state (tick 900 (set_and_start (JSNumber (Finite 1)) 0 (init 0))) =
     \<lparr>timeLeft = 1, status = RUNNING, overtimeMode = COUNT_UP, lastTick = 0\<rparr>
   \<and> sent (tick 900 (set_and_start (JSNumber (Finite 1)) 0 (init 0))) =
     sent (set_and_start (JSNumber (Finite 1)) 0 (init 0))
   \<and> state (tick 2500
        (set_and_start (JSNumber (Finite 2)) 0 (set_mode (JSString ''STOP'') (init 0)))) =
     \<lparr>timeLeft = 0, status = FINISHED, overtimeMode = STOP, lastTick = 2500\<rparr>
   \<and> timeouts (tick 2500
        (set_and_start (JSNumber (Finite 2)) 0 (set_mode (JSString ''STOP'') (init 0)))) = []"
proof -
  let ?up = "set_and_start (JSNumber (Finite 1)) 0 (init 0)"
  let ?down = "set_and_start (JSNumber (Finite 2)) 0 (set_mode (JSString ''STOP'') (init 0))"
  have a: "state (tick 3000 ?up) =
     \<lparr>timeLeft = - 2, status = RUNNING, overtimeMode = COUNT_UP, lastTick = 3000\<rparr>"
    using tick_running [of ?up 3000]
    by (simp add: Let_def elapsed_floor set_and_start_def sched_defs init_def clamped_def
        Math_round_whole)
  have b: "state (tick 900 ?up) =
     \<lparr>timeLeft = 1, status = RUNNING, overtimeMode = COUNT_UP, lastTick = 0\<rparr>
     \<and> sent (tick 900 ?up) = sent ?up"
    using tick_running [of ?up 900]
    by (simp add: Let_def elapsed_floor set_and_start_def sched_defs init_def clamped_def
        Math_round_whole)
  have c: "state (tick 2500 ?down) =
     \<lparr>timeLeft = 0, status = FINISHED, overtimeMode = STOP, lastTick = 2500\<rparr>
     \<and> timeouts (tick 2500 ?down) = []"
    using tick_running [of ?down 2500]
    by (simp add: Let_def elapsed_floor set_and_start_def set_mode_def sched_defs init_def
        clamped_def Math_round_whole)
  from a b c show ?thesis by blast
qed

subsection \<open>start\<close>

text \<open>
  C4. \<open>start\<close> changes the server exactly when the status is not \<open>RUNNING\<close> and
  either \<open>timeLeft\<close> is not 0 or the status is \<open>PAUSED\<close>. Then the status becomes
  \<open>RUNNING\<close>, \<open>lastTick\<close> becomes \<open>now\<close>, a handle is held, a tick is scheduled
  when none was held, and one snapshot is broadcast; after any sequence of events from
  the initial state exactly one tick is then pending. Otherwise the server is left
  exactly as it was, with nothing sent; in particular with \<open>timeLeft = 0\<close> and status
  \<open>IDLE\<close>.
\<close>

theorem start_guard:
  "(status (state s) \<noteq> RUNNING \<and> (timeLeft (state s) \<noteq> 0 \<or> status (state s) = PAUSED) \<longrightarrow>
      state (start now s) = (state s)\<lparr>status := RUNNING, lastTick := now\<rparr>
      \<and> timerInterval (start now s) \<noteq> None
      \<and> (timerInterval s = None \<longrightarrow>
            timerInterval (start now s) = Some (nextTimeout s)
            \<and> timeouts (start now s) = timeouts s @ [nextTimeout s])
      \<and> sent (start now s) = sent s @ [TimerUpdate (state (start now s))])
   \<and> (\<not> (status (state s) \<noteq> RUNNING \<and> (timeLeft (state s) \<noteq> 0 \<or> status (state s) = PAUSED)) \<longrightarrow>
      start now s = s)
   \<and> (start now s \<noteq> s \<longleftrightarrow>
      status (state s) \<noteq> RUNNING \<and> (timeLeft (state s) \<noteq> 0 \<or> status (state s) = PAUSED))
   \<and> (timeLeft (state s) = 0 \<and> status (state s) = IDLE \<longrightarrow> start now s = s)
   \<and> (status (state (run evs (init t0))) \<noteq> RUNNING
       \<and> (timeLeft (state (run evs (init t0))) \<noteq> 0
           \<or> status (state (run evs (init t0))) = PAUSED) \<longrightarrow>
      length (timeouts (start now (run evs (init t0)))) = 1)"
proof -
  let ?g = "status (state s) \<noteq> RUNNING \<and> (timeLeft (state s) \<noteq> 0 \<or> status (state s) = PAUSED)"
  have 1: "?g \<longrightarrow>
      state (start now s) = (state s)\<lparr>status := RUNNING, lastTick := now\<rparr>
      \<and> timerInterval (start now s) \<noteq> None
      \<and> (timerInterval s = None \<longrightarrow>
            timerInterval (start now s) = Some (nextTimeout s)
            \<and> timeouts (start now s) = timeouts s @ [nextTimeout s])
      \<and> sent (start now s) = sent s @ [TimerUpdate (state (start now s))]"
    by (simp add: start_def sched_defs Let_def)
  have 2: "\<not> ?g \<longrightarrow> start now s = s"
    by (simp add: start_def)
  have "?g \<longrightarrow> status (state (start now s)) \<noteq> status (state s)"
    by (auto simp add: start_def sched_defs Let_def)
  then have 3: "start now s \<noteq> s \<longleftrightarrow> ?g"
    using 2 by auto
  have 4: "timeLeft (state s) = 0 \<and> status (state s) = IDLE \<longrightarrow> start now s = s"
    by (simp add: start_def)
  let ?r = "run evs (init t0)"
  have "sched_inv ?r"
    by (simp add: sched_inv_run sched_inv_init)
  then have 5: "status (state ?r) \<noteq> RUNNING
       \<and> (timeLeft (state ?r) \<noteq> 0 \<or> status (state ?r) = PAUSED) \<longrightarrow>
      length (timeouts (start now ?r)) = 1"
    by (simp add: sched_inv_def start_def sched_defs Let_def)
  from 1 2 3 4 5 show ?thesis by blast
qed

theorem start_guard_witness:
  "start 50 (init 0) = init 0
   \<and> state (start 50 (set_time (JSNumber (Finite 125)) (init 0))) =
       \<lparr>timeLeft = 125, status = RUNNING, overtimeMode = COUNT_UP, lastTick = 50\<rparr>
   \<and> timeouts (start 50 (set_time (JSNumber (Finite 125)) (init 0))) = [0]
   \<and> state (start 70 (pause (init 0))) =
       \<lparr>timeLeft = 0, status = RUNNING, overtimeMode = COUNT_UP, lastTick = 70\<rparr>
   \<and> start 90 (start 50 (set_time (JSNumber (Finite 125)) (init 0))) =
       start 50 (set_time (JSNumber (Finite 125)) (init 0))"
proof -
  let ?set = "set_time (JSNumber (Finite 125)) (init 0)"
  have a: "start 50 (init 0) = init 0"
    using start_guard [of "init 0" 50] by (simp add: init_def)
  have b: "state (start 50 ?set) =
       \<lparr>timeLeft = 125, status = RUNNING, overtimeMode = COUNT_UP, lastTick = 50\<rparr>
     \<and> timeouts (start 50 ?set) = [0]"
    using start_guard [of ?set 50]
    by (simp add: set_time_def sched_defs init_def clamped_def Math_round_whole)
  have c: "state (start 70 (pause (init 0))) =
       \<lparr>timeLeft = 0, status = RUNNING, overtimeMode = COUNT_UP, lastTick = 70\<rparr>"
    using start_guard [of "pause (init 0)" 70]
    by (simp add: pause_def sched_defs init_def)
  have d: "status (state (start 50 ?set)) = RUNNING"
    using b by simp
  have e: "start 90 (start 50 ?set) = start 50 ?set"
    using start_guard [of "start 50 ?set" 90] d by blast
  from a b c e show ?thesis by blast
qed

subsection \<open>pause\<close>

text \<open>
  C8. \<open>pause\<close> is idempotent: from every starting state, calling it twice in a row
  leaves the same timer state (\<open>timeLeft\<close>, \<open>status\<close>, \<open>overtimeMode\<close>, \<open>lastTick\<close>)
  and the same scheduling as calling it once.
\<close>

theorem pause_idempotent:
  "state (pause (pause s)) = state (pause s)
   \<and> timerInterval (pause (pause s)) = timerInterval (pause s)
   \<and> timeouts (pause (pause s)) = timeouts (pause s)"
  by (simp add: pause_def sched_defs split: option.splits)

theorem pause_idempotent_witness:
  "state (pause (pause (init 7))) =
     \<lparr>timeLeft = 0, status = PAUSED, overtimeMode = COUNT_UP, lastTick = 7\<rparr>"
proof -
  have a: "state (pause (pause (init 7))) = state (pause (init 7))"
    using pause_idempotent [of "init 7"] by (rule conjunct1)
  have b: "state (pause (init 7)) =
     \<lparr>timeLeft = 0, status = PAUSED, overtimeMode = COUNT_UP, lastTick = 7\<rparr>"
    by (simp add: pause_def sched_defs init_def)
  from a b show ?thesis by (rule trans)
qed

subsection \<open>Overtime in mode STOP\<close>

text \<open>
  C2, as stated: no state reached from the initial one by commands and ticks has mode
  \<open>STOP\<close>, \<open>timeLeft \<le> 0\<close> and status \<open>RUNNING\<close>. This fails: the timer counts
  up into overtime and the mode is then set to \<open>STOP\<close>.
\<close>

theorem forbidden_combination_counterexample:
  "overtimeMode (state (run [(0, SetAndStart (JSNumber (Finite 1))), (3000, TimeoutFires 0),
        (3100, SetMode (JSString ''STOP''))] (init 0))) = STOP
   \<and> timeLeft (state (run [(0, SetAndStart (JSNumber (Finite 1))), (3000, TimeoutFires 0),
        (3100, SetMode (JSString ''STOP''))] (init 0))) = - 2
   \<and> status (state (run [(0, SetAndStart (JSNumber (Finite 1))), (3000, TimeoutFires 0),
        (3100, SetMode (JSString ''STOP''))] (init 0))) = RUNNING"
  by (simp add: handler_defs tick_def sched_defs init_def clamped_def Math_round_whole Let_def)

text \<open>
  C2, amended. Mode \<open>STOP\<close> with \<open>timeLeft \<le> 0\<close> and status \<open>RUNNING\<close> is entered
  only by \<open>start\<close>, \<open>set-mode\<close> or \<open>set-and-start\<close>: a tick, \<open>set-time\<close>,
  \<open>pause\<close>, \<open>stop\<close> and \<open>shutdown\<close> never lead into it from outside. It does not
  survive a tick that measures at least one elapsed second: that tick leaves a state
  outside the combination, and in mode \<open>STOP\<close> with the time used up it leaves status
  \<open>FINISHED\<close> with \<open>timeLeft = 0\<close>.
\<close>

theorem tick_clears_forbidden_combination:
  "(\<not> (overtimeMode (state s) = STOP \<and> timeLeft (state s) \<le> 0 \<and> status (state s) = RUNNING)
      \<and> e \<noteq> Start \<and> (\<forall>v. e \<noteq> SetMode v) \<and> (\<forall>v. e \<noteq> SetAndStart v) \<longrightarrow>
      \<not> (overtimeMode (state (step now e s)) = STOP
         \<and> timeLeft (state (step now e s)) \<le> 0
         \<and> status (state (step now e s)) = RUNNING))
   \<and> (h \<in> set (timeouts s) \<and> status (state s) = RUNNING \<and> 1000 \<le> now - lastTick (state s) \<longrightarrow>
      \<not> (overtimeMode (state (step now (TimeoutFires h) s)) = STOP
         \<and> timeLeft (state (step now (TimeoutFires h) s)) \<le> 0
         \<and> status (state (step now (TimeoutFires h) s)) = RUNNING)
      \<and> (overtimeMode (state s) = STOP
          \<and> timeLeft (state s) \<le> (now - lastTick (state s)) div 1000 \<longrightarrow>
          status (state (step now (TimeoutFires h) s)) = FINISHED
          \<and> timeLeft (state (step now (TimeoutFires h) s)) = 0))"
proof -
  let ?bad = "\<lambda>s. overtimeMode (state s) = STOP \<and> timeLeft (state s) \<le> 0
    \<and> status (state s) = RUNNING"
  let ?t = "step now (TimeoutFires h) s"
  have 1: "\<not> ?bad (step now e s)"
    if "\<not> ?bad s" and "e \<noteq> Start" and "\<forall>v. e \<noteq> SetMode v" and "\<forall>v. e \<noteq> SetAndStart v"
  proof (cases e)
    case (SetTime v)
    with that(1) show ?thesis
      by (auto simp add: set_time_def sched_defs split: js_value.splits js_number.splits)
  next
    case Pause
    then show ?thesis by (simp add: pause_def sched_defs)
  next
    case Stop
    then show ?thesis by (simp add: stop_def sched_defs)
  next
    case Shutdown
    with that(1) show ?thesis by (simp add: shutdown_def sched_defs Let_def)
  next
    case (TimeoutFires k)
    with that(1) show ?thesis by (auto simp add: tick_def sched_defs Let_def)
  qed (use that in simp_all)
  have e: "1000 \<le> now - lastTick (state s) \<Longrightarrow> 1 \<le> (now - lastTick (state s)) div 1000"
    by linarith
  have 2: "h \<in> set (timeouts s) \<and> status (state s) = RUNNING \<and> 1000 \<le> now - lastTick (state s) \<longrightarrow>
      \<not> ?bad ?t
      \<and> (overtimeMode (state s) = STOP
          \<and> timeLeft (state s) \<le> (now - lastTick (state s)) div 1000 \<longrightarrow>
          status (state ?t) = FINISHED \<and> timeLeft (state ?t) = 0)"
    using e by (simp add: tick_def sched_defs Let_def)
  from 1 2 show ?thesis by blast
qed

theorem tick_clears_forbidden_combination_witness:
  "status (state (step 1000 (TimeoutFires 0)
      (set_and_start (JSNumber (Finite 0)) 0 (set_mode (JSString ''STOP'') (init 0))))) =
     FINISHED
   \<and> timeLeft (state (step 1000 (TimeoutFires 0)
      (set_and_start (JSNumber (Finite 0)) 0 (set_mode (JSString ''STOP'') (init 0))))) = 0
   \<and> \<not> (overtimeMode (state (step 5 Pause (init 0))) = STOP
        \<and> timeLeft (state (step 5 Pause (init 0))) \<le> 0
        \<and> status (state (step 5 Pause (init 0))) = RUNNING)"
proof -
  let ?s = "set_and_start (JSNumber (Finite 0)) 0 (set_mode (JSString ''STOP'') (init 0))"
  have a: "status (state (step 1000 (TimeoutFires 0) ?s)) = FINISHED
      \<and> timeLeft (state (step 1000 (TimeoutFires 0) ?s)) = 0"
    using tick_clears_forbidden_combination [of ?s "TimeoutFires 0" 1000 0]
    by (simp add: set_and_start_def set_mode_def sched_defs init_def clamped_def
        Math_round_whole)
  have b: "\<not> (overtimeMode (state (step 5 Pause (init 0))) = STOP
        \<and> timeLeft (state (step 5 Pause (init 0))) \<le> 0
        \<and> status (state (step 5 Pause (init 0))) = RUNNING)"
    using tick_clears_forbidden_combination [of "init 0" Pause 5]
    by (simp add: init_def)
  from a b show ?thesis by blast
qed

subsection \<open>One scheduled tick\<close>

text \<open>
  C6, as stated: in every reachable state the status is \<open>RUNNING\<close> exactly when one
  tick is scheduled. This fails after a \<open>shutdown\<close> command, which clears the timer
  and leaves the status as it is, while the server goes on handling events until the
  process exits.
\<close>

theorem one_tick_iff_running_counterexample:
  "status (state (run [(0, SetAndStart (JSNumber (Finite 90))), (100, Shutdown)] (init 0))) =
     RUNNING
   \<and> timeouts (run [(0, SetAndStart (JSNumber (Finite 90))), (100, Shutdown)] (init 0)) = []"
  by (simp add: handler_defs sched_defs init_def clamped_def Math_round_whole Let_def)

text \<open>
  C6, amended. In every state reached from the initial one by commands and ticks, at
  most one tick is scheduled, and none unless the status is \<open>RUNNING\<close>; as long as no
  \<open>shutdown\<close> command was among the events, the status is \<open>RUNNING\<close> exactly when
  one tick is scheduled. A \<open>shutdown\<close> command leaves no tick scheduled and does not
  change the timer state.
\<close>

theorem one_tick_while_running:
  "length (timeouts (run evs (init t0))) \<le> 1
   \<and> (status (state (run evs (init t0))) \<noteq> RUNNING \<longrightarrow> timeouts (run evs (init t0)) = [])
   \<and> (Shutdown \<notin> snd ` set evs \<longrightarrow>
        (status (state (run evs (init t0))) = RUNNING
          \<longleftrightarrow> length (timeouts (run evs (init t0))) = 1))
   \<and> timeouts (step now Shutdown (run evs (init t0))) = []
   \<and> state (step now Shutdown (run evs (init t0))) = state (run evs (init t0))"
proof -
  let ?r = "run evs (init t0)"
  have inv: "sched_inv ?r"
    by (simp add: sched_inv_run sched_inv_init)
  then have 1: "length (timeouts ?r) \<le> 1"
    by (simp add: sched_inv_def split: option.splits)
  from inv have 2: "status (state ?r) \<noteq> RUNNING \<longrightarrow> timeouts ?r = []"
    by (simp add: sched_inv_def)
  have 3: "status (state ?r) = RUNNING \<longleftrightarrow> length (timeouts ?r) = 1"
    if "Shutdown \<notin> snd ` set evs"
  proof -
    from that have "live_inv ?r"
      by (simp add: live_inv_run live_inv_init)
    then show ?thesis
      by (auto simp add: live_inv_def sched_inv_def split: option.splits)
  qed
  from inv have 4: "timeouts (step now Shutdown ?r) = []"
    by (auto simp add: sched_inv_def shutdown_def sched_defs Let_def split: option.splits)
  have 5: "state (step now Shutdown ?r) = state ?r"
    by (simp add: shutdown_def sched_defs Let_def)
  from 1 2 3 4 5 show ?thesis by blast
qed

theorem one_tick_while_running_witness:
  "Shutdown \<notin> snd ` set [(0, SetAndStart (JSNumber (Finite 90))), (1000, TimeoutFires 0)]
   \<and> status (state (run [(0, SetAndStart (JSNumber (Finite 90))), (1000, TimeoutFires 0)]
        (init 0))) = RUNNING
   \<and> length (timeouts (run [(0, SetAndStart (JSNumber (Finite 90))), (1000, TimeoutFires 0)]
        (init 0))) = 1
   \<and> status (state (run [(0, SetAndStart (JSNumber (Finite 90))), (1000, TimeoutFires 0),
        (1500, Pause)] (init 0))) = PAUSED
   \<and> timeouts (run [(0, SetAndStart (JSNumber (Finite 90))), (1000, TimeoutFires 0),
        (1500, Pause)] (init 0)) = []"
proof -
  let ?e1 = "[(0, SetAndStart (JSNumber (Finite 90))), (1000, TimeoutFires 0)]"
  let ?e2 = "[(0, SetAndStart (JSNumber (Finite 90))), (1000, TimeoutFires 0), (1500, Pause)]"
  have a: "Shutdown \<notin> snd ` set ?e1"
    by simp
  have b: "status (state (run ?e1 (init 0))) = RUNNING"
    by (simp add: handler_defs tick_def sched_defs init_def clamped_def Math_round_whole
        Let_def)
  have c: "length (timeouts (run ?e1 (init 0))) = 1"
    using one_tick_while_running [of ?e1 0] a b by blast
  have d: "status (state (run ?e2 (init 0))) = PAUSED"
    by (simp add: handler_defs tick_def sched_defs init_def clamped_def Math_round_whole
        Let_def)
  then have d': "status (state (run ?e2 (init 0))) \<noteq> RUNNING"
    by simp
  have e: "timeouts (run ?e2 (init 0)) = []"
    using one_tick_while_running [of ?e2 0] d' by blast
  from a b c d e show ?thesis by blast
qed

subsection \<open>Leaving FINISHED\<close>

text \<open>
  C7, as stated: from status \<open>FINISHED\<close> only \<open>stop\<close>, \<open>set-time\<close> and
  \<open>set-and-start\<close> change the status. This fails for \<open>pause\<close>, which sets the status
  to \<open>PAUSED\<close> whatever it was.
\<close>

theorem finished_terminal_counterexample:
  "status (state (run [(0, SetMode (JSString ''STOP'')), (0, SetAndStart (JSNumber (Finite 1))),
        (1000, TimeoutFires 0)] (init 0))) = FINISHED
   \<and> status (state (step 1100 Pause
        (run [(0, SetMode (JSString ''STOP'')), (0, SetAndStart (JSNumber (Finite 1))),
          (1000, TimeoutFires 0)] (init 0)))) = PAUSED"
  by (simp add: handler_defs tick_def sched_defs init_def clamped_def Math_round_whole Let_def)

text \<open>
  C7, amended. From a state with status \<open>FINISHED\<close> reached from the initial one,
  \<open>start\<close>, \<open>set-mode\<close>, \<open>shutdown\<close>, every timeout and every call of \<open>tick\<close>
  leave the status \<open>FINISHED\<close> (\<open>start\<close>, a timeout and \<open>tick\<close> leave the whole
  server as it was); \<open>pause\<close>
  leads to \<open>PAUSED\<close>, \<open>stop\<close> and \<open>set-time\<close> with a finite number to \<open>IDLE\<close>, and
  \<open>set-and-start\<close> with a finite number to \<open>RUNNING\<close>.
\<close>

theorem finished_transitions:
  assumes "status (state (run evs (init t0))) = FINISHED"
  shows "status (state (step now e (run evs (init t0)))) =
      (case e of
         Pause \<Rightarrow> PAUSED
       | Stop \<Rightarrow> IDLE
       | SetTime v \<Rightarrow> if Number_isFinite v then IDLE else FINISHED
       | SetAndStart v \<Rightarrow> if Number_isFinite v then RUNNING else FINISHED
       | _ \<Rightarrow> FINISHED)
    \<and> step now Start (run evs (init t0)) = run evs (init t0)
    \<and> step now (TimeoutFires h) (run evs (init t0)) = run evs (init t0)
    \<and> tick now (run evs (init t0)) = run evs (init t0)"
proof -
  let ?r = "run evs (init t0)"
  have inv: "sched_inv ?r"
    by (simp add: sched_inv_run sched_inv_init)
  with assms have z: "timeLeft (state ?r) = 0" and t: "timeouts ?r = []"
    by (simp_all add: sched_inv_def)
  have 1: "step now Start ?r = ?r"
    using assms z by (simp add: start_def)
  have 2: "step now (TimeoutFires h) ?r = ?r"
    using t by simp
  have 3: "status (state (step now e ?r)) =
      (case e of
         Pause \<Rightarrow> PAUSED
       | Stop \<Rightarrow> IDLE
       | SetTime v \<Rightarrow> if Number_isFinite v then IDLE else FINISHED
       | SetAndStart v \<Rightarrow> if Number_isFinite v then RUNNING else FINISHED
       | _ \<Rightarrow> FINISHED)"
  proof (cases e)
    case (SetTime v)
    show ?thesis unfolding SetTime using assms
      by (cases v rule: Number_isFinite.cases) (simp_all add: set_time_def sched_defs)
  next
    case Start
    show ?thesis unfolding Start using assms 1 by simp
  next
    case Pause
    show ?thesis unfolding Pause by (simp add: pause_def sched_defs)
  next
    case Stop
    show ?thesis unfolding Stop by (simp add: stop_def sched_defs)
  next
    case (SetMode v)
    show ?thesis unfolding SetMode using assms by (simp add: set_mode_def sched_defs)
  next
    case (SetAndStart v)
    show ?thesis unfolding SetAndStart using assms
      by (cases v rule: Number_isFinite.cases) (simp_all add: set_and_start_def sched_defs)
  next
    case Shutdown
    show ?thesis unfolding Shutdown using assms by (simp add: shutdown_def sched_defs Let_def)
  next
    case (TimeoutFires k)
    show ?thesis unfolding TimeoutFires using assms t by simp
  qed
  have 4: "tick now ?r = ?r"
    using assms by (simp add: tick_def)
  from 1 2 3 4 show ?thesis by blast
qed

theorem finished_transitions_witness:
  "status (state (run [(0, SetMode (JSString ''STOP'')), (0, SetAndStart (JSNumber (Finite 1))),
        (1000, TimeoutFires 0)] (init 0))) = FINISHED
   \<and> status (state (step 1100 Start
        (run [(0, SetMode (JSString ''STOP'')), (0, SetAndStart (JSNumber (Finite 1))),
          (1000, TimeoutFires 0)] (init 0)))) = FINISHED
   \<and> status (state (step 1100 Stop
        (run [(0, SetMode (JSString ''STOP'')), (0, SetAndStart (JSNumber (Finite 1))),
          (1000, TimeoutFires 0)] (init 0)))) = IDLE
   \<and> status (state (step 1100 (SetAndStart (JSNumber (Finite 5)))
        (run [(0, SetMode (JSString ''STOP'')), (0, SetAndStart (JSNumber (Finite 1))),
          (1000, TimeoutFires 0)] (init 0)))) = RUNNING"
proof -
  let ?evs = "[(0, SetMode (JSString ''STOP'')), (0, SetAndStart (JSNumber (Finite 1))),
        (1000, TimeoutFires 0)]"
  have f: "status (state (run ?evs (init 0))) = FINISHED"
    by (simp add: handler_defs tick_def sched_defs init_def clamped_def Math_round_whole
        Let_def)
  have a: "status (state (step 1100 Start (run ?evs (init 0)))) = FINISHED"
    using finished_transitions [OF f, of 1100 Start, THEN conjunct1]
    by (simp only: event.case)
  have b: "status (state (step 1100 Stop (run ?evs (init 0)))) = IDLE"
    using finished_transitions [OF f, of 1100 Stop, THEN conjunct1]
    by (simp only: event.case)
  have c: "status (state (step 1100 (SetAndStart (JSNumber (Finite 5)))
      (run ?evs (init 0)))) = RUNNING"
    using finished_transitions [OF f, of 1100 "SetAndStart (JSNumber (Finite 5))",
        THEN conjunct1]
    by (simp only: event.case Number_isFinite.simps if_True)
  from f a b c show ?thesis by blast
qed

end
